theory Spec2Isabelle
  imports Main "HOL-Library.Sublist"
begin

section \<open>The platform: requests, responses, URLs, Cache Storage, network\<close>

text \<open>
  The three service workers of the repository (\<^verbatim>\<open>sw.js\<close>, cache version v2, and the two
  scripts in \<^verbatim>\<open>unnamed/part_000\<close>, cache versions v3 and v1) are event handlers over
  the browser's Cache Storage and \<^verbatim>\<open>fetch\<close>. The handlers are embedded as functions
  that take the cache storage and return the new one, together with what the handler
  passed to \<^verbatim>\<open>respondWith\<close> and the list of network fetches it issued. The promise
  chains are run to their end: a \<^verbatim>\<open>cache.put\<close> that the source starts without
  awaiting it is part of the returned storage.

  The handlers read a response through \<^verbatim>\<open>response.ok\<close> only, which the platform
  derives from the status; \<^verbatim>\<open>cache.put\<close> also looks at the status and at the values
  of the \<^verbatim>\<open>Vary\<close> header.
\<close>

record response =
  status :: nat
  vary :: "string list"
  body :: string

definition ok :: "response \<Rightarrow> bool" where
  "ok r = (200 \<le> status r \<and> status r \<le> 299)"

text \<open>
  A request as the handlers read it: \<^verbatim>\<open>request.method\<close>, \<^verbatim>\<open>request.url\<close> (the
  serialised absolute URL), \<^verbatim>\<open>request.headers\<close> (names in lower case, as the
  \<^verbatim>\<open>Headers\<close> object keeps them) and the body of a POST.
\<close>

record request =
  req_method :: string
  url :: string
  headers :: "(string \<times> string) list"
  payload :: "string option"

definition headers_get :: "(string \<times> string) list \<Rightarrow> string \<Rightarrow> string option" where
  "headers_get hs name = map_of hs name"

text \<open>JavaScript's \<^verbatim>\<open>s.startsWith(p)\<close> and \<^verbatim>\<open>s.includes(p)\<close>.\<close>

definition startsWith :: "string \<Rightarrow> string \<Rightarrow> bool" where
  "startsWith s p = prefix p s"

definition str_includes :: "string \<Rightarrow> string \<Rightarrow> bool" where
  "str_includes s p = sublist p s"

text \<open>
  \<^verbatim>\<open>new URL(request.url)\<close> on a serialised URL: \<^verbatim>\<open>protocol\<close> is the scheme with
  its colon; \<^verbatim>\<open>hostname\<close> is the host of the authority (after \<^verbatim>\<open>//\<close>, without
  user information and port), and empty when the URL has no authority.
\<close>

definition url_protocol :: "string \<Rightarrow> string" where
  "url_protocol u = takeWhile (\<lambda>c. c \<noteq> CHR '':'') u @ '':''"

definition url_hostname :: "string \<Rightarrow> string" where
  "url_hostname u =
     (let rest = drop 1 (dropWhile (\<lambda>c. c \<noteq> CHR '':'') u) in
      if prefix ''//'' rest then
        (let authority = takeWhile (\<lambda>c. c \<notin> set ''/?#'') (drop 2 rest);
             hostport = (if CHR ''@'' \<in> set authority
                         then rev (takeWhile (\<lambda>c. c \<noteq> CHR ''@'') (rev authority))
                         else authority)
         in if prefix ''['' hostport
            then takeWhile (\<lambda>c. c \<noteq> CHR '']'') hostport @ '']''
            else takeWhile (\<lambda>c. c \<noteq> CHR '':'') hostport)
      else [])"

text \<open>
  What the browser supplies to a run of a handler: the network (\<open>None\<close> is a
  \<^verbatim>\<open>fetch\<close> whose promise rejects), the resolution of a URL written in the script
  (\<^verbatim>\<open>'/index.html'\<close>, \<^verbatim>\<open>'./'\<close>) against the worker's location, and, for the sync
  stub, \<^verbatim>\<open>JSON.parse\<close> (\<open>None\<close> is a SyntaxError), \<^verbatim>\<open>JSON.stringify\<close> and the
  comparison \<^verbatim>\<open>v > 0\<close> on a value read from a parsed object.
\<close>

datatype json =
  JNull | JBool bool | JNum int | JStr string | JArr "json list" | JObj "(string \<times> json) list"

record env =
  net :: "request \<Rightarrow> response option"
  resolve :: "string \<Rightarrow> string"
  json_parse :: "string \<Rightarrow> json option"
  json_stringify :: "json \<Rightarrow> string"
  js_positive :: "json \<Rightarrow> bool"

text \<open>\<^verbatim>\<open>new Request(u)\<close> for a URL string of the script: a GET without headers.\<close>

definition Request :: "env \<Rightarrow> string \<Rightarrow> request" where
  "Request e u = \<lparr>req_method = ''GET'', url = resolve e u, headers = [], payload = None\<rparr>"

subsection \<open>Cache Storage\<close>

text \<open>
  A cache maps request URLs to responses; the cache storage is the list of named
  caches in the order of their creation, which is the order \<^verbatim>\<open>caches.keys()\<close> lists
  them and \<^verbatim>\<open>caches.match\<close> searches them. A lookup compares the URL of the request
  (the handlers look up GET requests only), \<^verbatim>\<open>cache.put\<close> replaces the entry of the
  URL or adds one, \<^verbatim>\<open>caches.open\<close> creates a cache that does not exist yet, and
  \<^verbatim>\<open>caches.delete\<close> removes the cache of that name.
\<close>

type_synonym cache = "(string \<times> response) list"
type_synonym cache_storage = "(string \<times> cache) list"

definition cache_match :: "cache \<Rightarrow> string \<Rightarrow> response option" where
  "cache_match c u = map_of c u"

fun cache_put :: "string \<Rightarrow> response \<Rightarrow> cache \<Rightarrow> cache" where
  "cache_put u r [] = [(u, r)]"
| "cache_put u r ((k, v) # c) = (if k = u then (u, r) # c else (k, v) # cache_put u r c)"

fun caches_match :: "cache_storage \<Rightarrow> string \<Rightarrow> response option" where
  "caches_match [] u = None"
| "caches_match ((n, c) # s) u =
     (case cache_match c u of Some r \<Rightarrow> Some r | None \<Rightarrow> caches_match s u)"

definition caches_keys :: "cache_storage \<Rightarrow> string list" where
  "caches_keys s = map fst s"

definition caches_open :: "string \<Rightarrow> cache_storage \<Rightarrow> cache_storage" where
  "caches_open name s = (if name \<in> set (caches_keys s) then s else s @ [(name, [])])"

definition caches_delete :: "string \<Rightarrow> cache_storage \<Rightarrow> cache_storage" where
  "caches_delete name s = filter (\<lambda>p. fst p \<noteq> name) s"

definition cache_of :: "cache_storage \<Rightarrow> string \<Rightarrow> cache" where
  "cache_of s name = (case map_of s name of Some c \<Rightarrow> c | None \<Rightarrow> [])"

fun caches_modify :: "string \<Rightarrow> (cache \<Rightarrow> cache) \<Rightarrow> cache_storage \<Rightarrow> cache_storage" where
  "caches_modify name f [] = []"
| "caches_modify name f ((n, c) # s) =
     (if n = name then (n, f c) # s else (n, c) # caches_modify name f s)"

text \<open>
  \<^verbatim>\<open>cache.put(request, response)\<close> stores the pair unless it rejects with a TypeError:
  the scheme of the request is not \<^verbatim>\<open>http\<close> or \<^verbatim>\<open>https\<close>, its method is not GET,
  the status of the response is 206, or its \<^verbatim>\<open>Vary\<close> header has the value \<^verbatim>\<open>*\<close>.
\<close>

definition put_accepts :: "request \<Rightarrow> response \<Rightarrow> bool" where
  "put_accepts q r =
     ((url_protocol (url q) = ''http:'' \<or> url_protocol (url q) = ''https:'') \<and>
      req_method q = ''GET'' \<and> status r \<noteq> 206 \<and> ''*'' \<notin> set (vary r))"

text \<open>
  \<^verbatim>\<open>caches.open(name).then((cache) => cache.put(request, response))\<close>, which no
  handler awaits or catches: the cache is opened (and created when it did not exist),
  and a \<^verbatim>\<open>put\<close> that rejects leaves it as it is.
\<close>

definition open_put :: "string \<Rightarrow> request \<Rightarrow> response \<Rightarrow> cache_storage \<Rightarrow> cache_storage" where
  "open_put name q r s =
     (if put_accepts q r then caches_modify name (cache_put (url q) r) (caches_open name s)
      else caches_open name s)"

text \<open>
  \<^verbatim>\<open>cache.addAll(urls)\<close> fetches every URL and stores the responses only when every
  fetch resolved with an \<^verbatim>\<open>ok\<close> response that \<^verbatim>\<open>put\<close> accepts; otherwise it
  rejects and stores nothing.
\<close>

fun fetch_all :: "env \<Rightarrow> request list \<Rightarrow> (request \<times> response) list option" where
  "fetch_all e [] = Some []"
| "fetch_all e (q # qs) =
     (case net e q of
        None \<Rightarrow> None
      | Some r \<Rightarrow>
          if ok r \<and> put_accepts q r
          then (case fetch_all e qs of None \<Rightarrow> None | Some qrs \<Rightarrow> Some ((q, r) # qrs))
          else None)"

definition cache_addAll :: "env \<Rightarrow> string list \<Rightarrow> cache \<Rightarrow> cache option" where
  "cache_addAll e urls c =
     (case fetch_all e (map (Request e) urls) of
        None \<Rightarrow> None
      | Some qrs \<Rightarrow> Some (fold (\<lambda>(q, r). cache_put (url q) r) qrs c))"

text \<open>\<^verbatim>\<open>caches.open(name).then((cache) => cache.addAll(urls))\<close>: whether it fulfilled, and the storage.\<close>

definition open_addAll :: "env \<Rightarrow> string \<Rightarrow> string list \<Rightarrow> cache_storage \<Rightarrow> bool \<times> cache_storage" where
  "open_addAll e name urls s =
     (let s1 = caches_open name s in
      case cache_addAll e urls (cache_of s1 name) of
        None \<Rightarrow> (False, s1)
      | Some c \<Rightarrow> (True, caches_modify name (\<lambda>_. c) s1))"

subsection \<open>What a handler run leaves behind\<close>

text \<open>
  The promise given to \<^verbatim>\<open>event.respondWith\<close> settles to a response, to
  \<^verbatim>\<open>undefined\<close> (\<open>Resolved None\<close>), or it rejects.
\<close>

datatype settled = Resolved "response option" | Rejected

record result =
  responded :: "settled option"
  caches :: cache_storage
  fetched :: "request list"

record lifecycle =
  completed :: bool
  storage :: cache_storage
  requested :: "request list"

definition passthrough :: "cache_storage \<Rightarrow> result" where
  "passthrough s = \<lparr>responded = None, caches = s, fetched = []\<rparr>"

section \<open>Version v3 (\<^verbatim>\<open>unnamed/part_000\<close>, first script)\<close>

definition CACHE_NAME_v3 :: string where
  "CACHE_NAME_v3 = ''ai-learning-v3''"

definition STATIC_ASSETS_v3 :: "string list" where
  "STATIC_ASSETS_v3 = [''./'', ''./index.html'', ''./manifest.json'']"

definition install_v3 :: "env \<Rightarrow> cache_storage \<Rightarrow> lifecycle" where
  "install_v3 e s =
     (case open_addAll e CACHE_NAME_v3 STATIC_ASSETS_v3 s of
        (done, s') \<Rightarrow>
          \<lparr>completed = done, storage = s', requested = map (Request e) STATIC_ASSETS_v3\<rparr>)"

definition activate_v3 :: "cache_storage \<Rightarrow> cache_storage" where
  "activate_v3 s =
     fold caches_delete (filter (\<lambda>name. name \<noteq> CACHE_NAME_v3) (caches_keys s)) s"

definition fetch_v3 :: "env \<Rightarrow> cache_storage \<Rightarrow> request \<Rightarrow> result" where
  "fetch_v3 e s request =
     (if req_method request \<noteq> ''GET'' then passthrough s
      else if \<not> startsWith (url request) ''http'' then passthrough s
      else
        (case caches_match s (url request) of
           Some cachedResponse \<Rightarrow>
             \<lparr>responded = Some (Resolved (Some cachedResponse)), caches = s, fetched = []\<rparr>
         | None \<Rightarrow>
             (case net e request of
                Some response \<Rightarrow>
                  \<lparr>responded = Some (Resolved (Some response)),
                   caches = (if ok response then open_put CACHE_NAME_v3 request response s else s),
                   fetched = [request]\<rparr>
              | None \<Rightarrow>
                  \<lparr>responded = Some (Resolved (caches_match s (resolve e ''./index.html''))),
                   caches = s,
                   fetched = [request]\<rparr>)))"

section \<open>Version v1 (\<^verbatim>\<open>unnamed/part_000\<close>, second script)\<close>

definition CACHE_NAME_v1 :: string where
  "CACHE_NAME_v1 = ''ai-learning-v1''"

definition STATIC_CACHE :: string where
  "STATIC_CACHE = ''static-v1''"

definition DYNAMIC_CACHE :: string where
  "DYNAMIC_CACHE = ''dynamic-v1''"

definition STATIC_ASSETS_v1 :: "string list" where
  "STATIC_ASSETS_v1 = [''/'', ''/static/styles.css'', ''/manifest.json'']"

definition install_v1 :: "env \<Rightarrow> cache_storage \<Rightarrow> lifecycle" where
  "install_v1 e s =
     (case open_addAll e STATIC_CACHE STATIC_ASSETS_v1 s of
        (done, s') \<Rightarrow>
          \<lparr>completed = done, storage = s', requested = map (Request e) STATIC_ASSETS_v1\<rparr>)"

definition activate_v1 :: "cache_storage \<Rightarrow> cache_storage" where
  "activate_v1 s =
     fold caches_delete
       (filter (\<lambda>name. name \<noteq> STATIC_CACHE \<and> name \<noteq> DYNAMIC_CACHE) (caches_keys s)) s"

text \<open>
  \<^verbatim>\<open>updateCache(request)\<close>: the background refresh; its \<^verbatim>\<open>try\<close>/\<^verbatim>\<open>catch\<close> swallows a
  failed fetch. It returns the storage and the fetches it issued.
\<close>

definition updateCache :: "env \<Rightarrow> cache_storage \<Rightarrow> request \<Rightarrow> cache_storage \<times> request list" where
  "updateCache e s request =
     (case net e request of
        Some response \<Rightarrow>
          (if ok response then open_put DYNAMIC_CACHE request response s else s, [request])
      | None \<Rightarrow> (s, [request]))"

definition fetch_v1 :: "env \<Rightarrow> cache_storage \<Rightarrow> request \<Rightarrow> result" where
  "fetch_v1 e s request =
     (if req_method request \<noteq> ''GET'' then passthrough s
      else if \<not> startsWith (url_protocol (url request)) ''http'' then passthrough s
      else
        (case caches_match s (url request) of
           Some cachedResponse \<Rightarrow>
             (case updateCache e s request of
                (s', reqs) \<Rightarrow>
                  \<lparr>responded = Some (Resolved (Some cachedResponse)), caches = s', fetched = reqs\<rparr>)
         | None \<Rightarrow>
             (case net e request of
                Some response \<Rightarrow>
                  \<lparr>responded = Some (Resolved (Some response)),
                   caches = (if ok response then open_put DYNAMIC_CACHE request response s else s),
                   fetched = [request]\<rparr>
              | None \<Rightarrow>
                  \<lparr>responded =
                     Some (case headers_get (headers request) ''accept'' of
                             None \<Rightarrow> Rejected
                           | Some accept \<Rightarrow>
                               if str_includes accept ''text/html''
                               then Resolved (caches_match s (resolve e ''/offline.html''))
                               else Resolved None),
                   caches = s,
                   fetched = [request]\<rparr>)))"

subsection \<open>The background-sync stub of v1\<close>

text \<open>
  \<^verbatim>\<open>localStorage\<close> is a list of items, or \<open>None\<close> where the global is not defined
  (reading it then throws a ReferenceError).
\<close>

type_synonym local_storage = "(string \<times> string) list option"

fun setItem :: "string \<Rightarrow> string \<Rightarrow> (string \<times> string) list \<Rightarrow> (string \<times> string) list" where
  "setItem k v [] = [(k, v)]"
| "setItem k v ((k', v') # items) =
     (if k' = k then (k, v) # items else (k', v') # setItem k v items)"

text \<open>\<^verbatim>\<open>JSON.parse(localStorage.getItem('syncQueue') || '[]')\<close>; \<open>None\<close> when it throws.\<close>

definition getSyncQueue :: "env \<Rightarrow> local_storage \<Rightarrow> json option" where
  "getSyncQueue e ls =
     (case ls of
        None \<Rightarrow> None
      | Some items \<Rightarrow>
          json_parse e
            (case map_of items ''syncQueue'' of
               None \<Rightarrow> ''[]''
             | Some text \<Rightarrow> if text = [] then ''[]'' else text))"

definition clearSyncQueue :: "local_storage \<Rightarrow> local_storage option" where
  "clearSyncQueue ls =
     (case ls of None \<Rightarrow> None | Some items \<Rightarrow> Some (Some (setItem ''syncQueue'' ''[]'' items)))"

text \<open>The test \<^verbatim>\<open>syncData && syncData.length > 0\<close> on a parsed value.\<close>

fun has_items :: "env \<Rightarrow> json \<Rightarrow> bool" where
  "has_items e (JArr xs) = (xs \<noteq> [])"
| "has_items e (JStr text) = (text \<noteq> [])"
| "has_items e (JObj members) =
     (case map_of members ''length'' of None \<Rightarrow> False | Some v \<Rightarrow> js_positive e v)"
| "has_items e JNull = False"
| "has_items e (JBool b) = False"
| "has_items e (JNum n) = False"

definition sync_request :: "env \<Rightarrow> json \<Rightarrow> request" where
  "sync_request e syncData =
     \<lparr>req_method = ''POST'', url = resolve e ''/api/sync'',
      headers = [(''content-type'', ''application/json'')],
      payload = Some (json_stringify e syncData)\<rparr>"

definition syncProgress :: "env \<Rightarrow> local_storage \<Rightarrow> local_storage \<times> request list" where
  "syncProgress e ls =
     (case getSyncQueue e ls of
        None \<Rightarrow> (ls, [])
      | Some syncData \<Rightarrow>
          if has_items e syncData then
            (case net e (sync_request e syncData) of
               None \<Rightarrow> (ls, [sync_request e syncData])
             | Some response \<Rightarrow>
                 (case clearSyncQueue ls of
                    None \<Rightarrow> (ls, [sync_request e syncData])
                  | Some ls' \<Rightarrow> (ls', [sync_request e syncData])))
          else (ls, []))"

definition sync_v1 :: "env \<Rightarrow> string \<Rightarrow> local_storage \<Rightarrow> local_storage \<times> request list" where
  "sync_v1 e tag ls = (if tag = ''sync-progress'' then syncProgress e ls else (ls, []))"

section \<open>Version v2 (\<^verbatim>\<open>sw.js\<close>)\<close>

definition CACHE_NAME_v2 :: string where
  "CACHE_NAME_v2 = ''ai-learning-v2''"

definition STLITE_CACHE :: string where
  "STLITE_CACHE = ''stlite-cache-v1''"

definition STATIC_ASSETS_v2 :: "string list" where
  "STATIC_ASSETS_v2 =
     [''/'', ''/index.html'', ''/manifest.json'', ''/static/styles.css'',
      ''/static/icons/icon-192.svg'', ''/static/icons/icon-512.svg'']"

definition STLITE_RESOURCES :: "string list" where
  "STLITE_RESOURCES = [''https://cdn.jsdelivr.net/npm/@stlite/mountable@0.42.3/build/stlite.js'']"

text \<open>
  \<^verbatim>\<open>Promise.all\<close> of the two \<^verbatim>\<open>open\<close>/\<^verbatim>\<open>addAll\<close> chains: both run, and the
  installation completes only when both fulfilled.
\<close>

definition install_v2 :: "env \<Rightarrow> cache_storage \<Rightarrow> lifecycle" where
  "install_v2 e s =
     (case open_addAll e CACHE_NAME_v2 STATIC_ASSETS_v2 s of
        (done1, s1) \<Rightarrow>
          (case open_addAll e STLITE_CACHE STLITE_RESOURCES s1 of
             (done2, s2) \<Rightarrow>
               \<lparr>completed = (done1 \<and> done2), storage = s2,
                requested = map (Request e) STATIC_ASSETS_v2 @ map (Request e) STLITE_RESOURCES\<rparr>))"

definition activate_v2 :: "cache_storage \<Rightarrow> cache_storage" where
  "activate_v2 s =
     fold caches_delete
       (filter (\<lambda>name. \<not> startsWith name ''ai-learning'' \<and> \<not> startsWith name ''stlite'')
          (caches_keys s)) s"

definition fetch_v2 :: "env \<Rightarrow> cache_storage \<Rightarrow> request \<Rightarrow> result" where
  "fetch_v2 e s request =
     (if req_method request \<noteq> ''GET'' then passthrough s
      else if \<not> startsWith (url_protocol (url request)) ''http'' then passthrough s
      else if str_includes (url_hostname (url request)) ''jsdelivr'' \<or>
              str_includes (url_hostname (url request)) ''pypi'' \<or>
              str_includes (url_hostname (url request)) ''pyodide'' then
        (case caches_match s (url request) of
           Some cached \<Rightarrow>
             \<lparr>responded = Some (Resolved (Some cached)), caches = s, fetched = []\<rparr>
         | None \<Rightarrow>
             (case net e request of
                Some response \<Rightarrow>
                  \<lparr>responded = Some (Resolved (Some response)),
                   caches = (if ok response then open_put STLITE_CACHE request response s else s),
                   fetched = [request]\<rparr>
              | None \<Rightarrow>
                  \<lparr>responded = Some Rejected, caches = s, fetched = [request]\<rparr>))
      else
        (case caches_match s (url request) of
           Some cachedResponse \<Rightarrow>
             \<lparr>responded = Some (Resolved (Some cachedResponse)),
              caches =
                (case net e request of
                   Some response \<Rightarrow>
                     if ok response then open_put CACHE_NAME_v2 request response s else s
                 | None \<Rightarrow> s),
              fetched = [request]\<rparr>
         | None \<Rightarrow>
             (case net e request of
                Some response \<Rightarrow>
                  \<lparr>responded = Some (Resolved (Some response)),
                   caches = (if ok response then open_put CACHE_NAME_v2 request response s else s),
                   fetched = [request]\<rparr>
              | None \<Rightarrow>
                  \<lparr>responded =
                     Some (case headers_get (headers request) ''accept'' of
                             None \<Rightarrow> Resolved None
                           | Some accept \<Rightarrow>
                               if str_includes accept ''text/html''
                               then Resolved (caches_match s (resolve e ''/index.html''))
                               else Resolved None),
                   caches = s,
                   fetched = [request]\<rparr>)))"

section \<open>The three versions side by side\<close>

datatype version = V1 | V2 | V3

fun fetch_handler :: "version \<Rightarrow> env \<Rightarrow> cache_storage \<Rightarrow> request \<Rightarrow> result" where
  "fetch_handler V1 = fetch_v1"
| "fetch_handler V2 = fetch_v2"
| "fetch_handler V3 = fetch_v3"

text \<open>A sequence of fetch events, each handled by some version on the network of its moment.\<close>

fun run_fetches :: "(version \<times> env \<times> request) list \<Rightarrow> cache_storage \<Rightarrow> cache_storage" where
  "run_fetches [] s = s"
| "run_fetches ((v, e, q) # events) s = run_fetches events (caches (fetch_handler v e s q))"

text \<open>The stored entries of a cache storage: cache name, request URL, response.\<close>

definition entries :: "cache_storage \<Rightarrow> (string \<times> string \<times> response) set" where
  "entries s = set (concat (map (\<lambda>(name, c). map (\<lambda>(u, r). (name, u, r)) c) s))"

text \<open>
  The protocols (URL schemes with their colon) that browsers implement: those of the
  Fetch standard, the WebSocket schemes, and the schemes of browser and extension pages,
  which the comment of the handlers names (\<^verbatim>\<open>Skip chrome-extension and other non-http
  requests\<close>). The request of a fetch event has one of them.
\<close>

definition fetch_event_protocols :: "string list" where
  "fetch_event_protocols =
     [''http:'', ''https:'', ''about:'', ''blob:'', ''data:'', ''file:'', ''filesystem:'',
      ''ftp:'', ''ws:'', ''wss:'', ''chrome:'', ''chrome-extension:'', ''moz-extension:'',
      ''safari-web-extension:'', ''edge:'', ''resource:'', ''view-source:'']"

text \<open>The requests that pass both skip guards of v1 and v2 (and, equivalently, of v3).\<close>

definition intercepted :: "request \<Rightarrow> bool" where
  "intercepted q = (req_method q = ''GET'' \<and> startsWith (url_protocol (url q)) ''http'')"

text \<open>The requests v2 routes to its CDN branch.\<close>

definition cdn_resource :: "request \<Rightarrow> bool" where
  "cdn_resource q =
     (str_includes (url_hostname (url q)) ''jsdelivr'' \<or>
      str_includes (url_hostname (url q)) ''pypi'' \<or>
      str_includes (url_hostname (url q)) ''pyodide'')"

text \<open>The test \<^verbatim>\<open>request.headers.get('accept')?.includes('text/html')\<close> of v2.\<close>

definition wants_html :: "request \<Rightarrow> bool" where
  "wants_html q =
     (case headers_get (headers q) ''accept'' of
        None \<Rightarrow> False
      | Some accept \<Rightarrow> str_includes accept ''text/html'')"

text \<open>The handler answered the event with a response.\<close>

definition answered :: "result \<Rightarrow> bool" where
  "answered res = (case responded res of Some (Resolved (Some r)) \<Rightarrow> True | _ \<Rightarrow> False)"

section \<open>Concrete platforms and requests\<close>

definition page :: response where
  "page = \<lparr>status = 200, vary = [], body = ''<html>lessons</html>''\<rparr>"

definition not_found :: response where
  "not_found = \<lparr>status = 404, vary = [], body = ''Not Found''\<rparr>"

definition partial_content :: response where
  "partial_content = \<lparr>status = 206, vary = [], body = ''<html>''\<rparr>"

definition unavailable :: response where
  "unavailable = \<lparr>status = 503, vary = [], body = ''Service Unavailable''\<rparr>"

definition origin_resolve :: "string \<Rightarrow> string" where
  "origin_resolve u =
     (if startsWith u ''http'' then u
      else ''https://app.example'' @ (if startsWith u ''.'' then drop 1 u else u))"

definition tiny_parse :: "string \<Rightarrow> json option" where
  "tiny_parse t =
     (if t = ''[]'' then Some (JArr [])
      else if t = ''[7]'' then Some (JArr [JNum 7])
      else None)"

definition tiny_stringify :: "json \<Rightarrow> string" where
  "tiny_stringify v = (if v = JArr [JNum 7] then ''[7]'' else ''[]'')"

definition online :: env where
  "online = \<lparr>net = (\<lambda>q. Some page), resolve = origin_resolve, json_parse = tiny_parse,
             json_stringify = tiny_stringify, js_positive = (\<lambda>v. False)\<rparr>"

definition erring :: env where
  "erring = \<lparr>net = (\<lambda>q. Some not_found), resolve = origin_resolve, json_parse = tiny_parse,
             json_stringify = tiny_stringify, js_positive = (\<lambda>v. False)\<rparr>"

definition ranged :: env where
  "ranged = \<lparr>net = (\<lambda>q. Some partial_content), resolve = origin_resolve,
             json_parse = tiny_parse, json_stringify = tiny_stringify,
             js_positive = (\<lambda>v. False)\<rparr>"

definition overwhelmed :: env where
  "overwhelmed = \<lparr>net = (\<lambda>q. Some unavailable), resolve = origin_resolve,
                 json_parse = tiny_parse, json_stringify = tiny_stringify,
                 js_positive = (\<lambda>v. False)\<rparr>"

definition offline :: env where
  "offline = \<lparr>net = (\<lambda>q. None), resolve = origin_resolve, json_parse = tiny_parse,
              json_stringify = tiny_stringify, js_positive = (\<lambda>v. False)\<rparr>"

definition GET :: "string \<Rightarrow> string \<Rightarrow> request" where
  "GET u accept = \<lparr>req_method = ''GET'', url = u, headers = [(''accept'', accept)], payload = None\<rparr>"

section \<open>Facts about the platform operations\<close>

lemma startsWith_Cons:
  "startsWith s (c # p) = (case s of [] \<Rightarrow> False | d # s' \<Rightarrow> d = c \<and> startsWith s' p)"
  by (cases s) (auto simp: startsWith_def)

lemma startsWith_Nil [simp]: "startsWith s []"
  by (simp add: startsWith_def)

lemma guard_protocol_url:
  "startsWith (url_protocol u) ''http'' = startsWith u ''http''"
proof (cases u)
  case Nil then show ?thesis by (simp add: url_protocol_def startsWith_def)
next
  case (Cons a u1)
  show ?thesis
  proof (cases u1)
    case Nil with Cons show ?thesis by (auto simp: url_protocol_def startsWith_def)
  next
    case (Cons b u2)
    note c2 = this
    show ?thesis
    proof (cases u2)
      case Nil with c2 \<open>u = a # u1\<close> show ?thesis by (auto simp: url_protocol_def startsWith_def)
    next
      case (Cons c u3)
      note c3 = this
      show ?thesis
      proof (cases u3)
        case Nil with c3 c2 \<open>u = a # u1\<close> show ?thesis by (auto simp: url_protocol_def startsWith_def)
      next
        case (Cons d u4)
        with c3 c2 \<open>u = a # u1\<close> show ?thesis by (auto simp: url_protocol_def startsWith_def)
      qed
    qed
  qed
qed

lemma cache_match_put: "cache_match (cache_put u r c) k = (if k = u then Some r else cache_match c k)"
  by (induction c) (auto simp: cache_match_def)

lemma caches_match_append:
  "caches_match (s @ t) u = (case caches_match s u of Some r \<Rightarrow> Some r | None \<Rightarrow> caches_match t u)"
  by (induction s) (auto split: option.splits)

lemma caches_modify_append:
  "caches_modify name f (s @ t) =
     (if name \<in> fst ` set s then caches_modify name f s @ t else s @ caches_modify name f t)"
  by (induction s) (force simp: image_iff)+

lemma caches_match_update_put:
  "name \<in> fst ` set s \<Longrightarrow> caches_match s u = None \<Longrightarrow>
   caches_match (caches_modify name (cache_put u r) s) u = Some r"
  by (induction s) (force simp: cache_match_put image_iff split: option.splits)+

lemma caches_match_open: "caches_match (caches_open name s) u = caches_match s u"
  by (simp add: caches_open_def caches_match_append cache_match_def split: option.splits)

lemma caches_match_open_put:
  "caches_match s (url q) = None \<Longrightarrow>
   caches_match (open_put name q r s) (url q) = (if put_accepts q r then Some r else None)"
  by (auto simp: open_put_def caches_match_open caches_open_def caches_keys_def
      caches_match_update_put caches_modify_append caches_match_append cache_match_put
      cache_match_def)

lemmas platform_defs =
  online_def erring_def offline_def ranged_def overwhelmed_def GET_def page_def not_found_def
  partial_content_def unavailable_def origin_resolve_def ok_def

lemmas handler_defs =
  fetch_v1_def fetch_v2_def fetch_v3_def updateCache_def passthrough_def open_put_def
  put_accepts_def
  caches_open_def caches_keys_def cache_match_def headers_get_def
  str_includes_def url_protocol_def url_hostname_def intercepted_def cdn_resource_def

section \<open>The fetch handlers\<close>

text \<open>
  Claim C1, as the code has it: for every intercepted request (GET, protocol starting with
  \<^verbatim>\<open>http\<close>) every version answers a cache hit with the stored response; on a miss
  with a network fetch that resolves, the network response is the answer; it is stored
  (a later \<^verbatim>\<open>caches.match\<close> of the request finds it) when \<^verbatim>\<open>response.ok\<close> holds
  and \<^verbatim>\<open>cache.put\<close> accepts the pair; otherwise nothing is stored for the request,
  and when \<^verbatim>\<open>response.ok\<close> does not hold the caches are left as they were.
\<close>

theorem C1_cache_first:
  "intercepted q \<Longrightarrow>
   (caches_match s (url q) = Some c \<longrightarrow>
      responded (fetch_handler v e s q) = Some (Resolved (Some c))) \<and>
   (caches_match s (url q) = None \<and> net e q = Some r \<longrightarrow>
      responded (fetch_handler v e s q) = Some (Resolved (Some r)) \<and>
      (ok r \<and> put_accepts q r \<longrightarrow>
         caches_match (caches (fetch_handler v e s q)) (url q) = Some r) \<and>
      (\<not> (ok r \<and> put_accepts q r) \<longrightarrow>
         caches_match (caches (fetch_handler v e s q)) (url q) = None) \<and>
      (\<not> ok r \<longrightarrow> caches (fetch_handler v e s q) = s))"
  by (cases v)
    (auto simp: intercepted_def fetch_v1_def fetch_v2_def fetch_v3_def updateCache_def
      guard_protocol_url caches_match_open_put split: option.splits)

theorem C1_cache_first_witness:
  "responded (fetch_handler V3 online [(''ai-learning-v3'', [(''https://app.example/'', not_found)])]
      (GET ''https://app.example/'' ''text/html'')) = Some (Resolved (Some not_found)) \<and>
   responded (fetch_handler V2 online [] (GET ''https://app.example/'' ''text/html''))
     = Some (Resolved (Some page)) \<and>
   caches_match (caches (fetch_handler V2 online [] (GET ''https://app.example/'' ''text/html'')))
     ''https://app.example/'' = Some page \<and>
   responded (fetch_handler V1 erring [] (GET ''https://app.example/'' ''text/html''))
     = Some (Resolved (Some not_found)) \<and>
   caches (fetch_handler V1 erring [] (GET ''https://app.example/'' ''text/html'')) = [] \<and>
   responded (fetch_handler V3 ranged [] (GET ''https://app.example/'' ''text/html''))
     = Some (Resolved (Some partial_content)) \<and>
   caches_match (caches (fetch_handler V3 ranged [] (GET ''https://app.example/'' ''text/html'')))
     ''https://app.example/'' = None"
proof -
  let ?q = "GET ''https://app.example/'' ''text/html''"
  have i: "intercepted ?q"
    by (simp add: intercepted_def GET_def url_protocol_def startsWith_Cons)
  have hit: "caches_match [(''ai-learning-v3'', [(''https://app.example/'', not_found)])] (url ?q)
      = Some not_found"
    by (simp add: GET_def cache_match_def)
  have miss: "caches_match [] (url ?q) = None"
    by simp
  have on: "net online ?q = Some page" "ok page" "put_accepts ?q page"
    by (simp_all add: online_def page_def ok_def put_accepts_def GET_def url_protocol_def)
  have err: "net erring ?q = Some not_found" "\<not> ok not_found"
    by (simp_all add: erring_def not_found_def ok_def)
  have part: "net ranged ?q = Some partial_content" "ok partial_content"
    "\<not> put_accepts ?q partial_content"
    by (simp_all add: ranged_def partial_content_def ok_def put_accepts_def)
  from C1_cache_first [OF i, where s = "[(''ai-learning-v3'', [(''https://app.example/'', not_found)])]"
        and c = not_found and v = V3 and e = online]
    C1_cache_first [OF i, where s = "[]" and e = online and r = page and v = V2]
    C1_cache_first [OF i, where s = "[]" and e = erring and r = not_found and v = V1]
    C1_cache_first [OF i, where s = "[]" and e = ranged and r = partial_content and v = V3]
    hit miss on err part
  show ?thesis
    by (simp add: GET_def)
qed

text \<open>
  Claim C1 as stated fails: on a miss, v3 returns a network response that is not
  \<^verbatim>\<open>ok\<close> and stores nothing.
\<close>

theorem C1_counterexample:
  "intercepted (GET ''https://app.example/quiz'' ''text/html'') \<and>
   caches_match [] (url (GET ''https://app.example/quiz'' ''text/html'')) = None \<and>
   net erring (GET ''https://app.example/quiz'' ''text/html'') = Some not_found \<and>
   responded (fetch_v3 erring [] (GET ''https://app.example/quiz'' ''text/html''))
     = Some (Resolved (Some not_found)) \<and>
   caches (fetch_v3 erring [] (GET ''https://app.example/quiz'' ''text/html'')) = []"
  by (simp add: platform_defs handler_defs startsWith_Cons)

text \<open>
  Claim C3, as the code has it: on a cache hit of an intercepted request, v3 and the CDN
  branch of v2 issue no network fetch; v1 and the local branch of v2 issue one fetch of
  the request (the background refresh). All of them answer with the cached response.
\<close>

theorem C3_network_on_hit:
  "intercepted q \<Longrightarrow> caches_match s (url q) = Some c \<Longrightarrow>
   fetched (fetch_v3 e s q) = [] \<and>
   fetched (fetch_v2 e s q) = (if cdn_resource q then [] else [q]) \<and>
   fetched (fetch_v1 e s q) = [q] \<and>
   responded (fetch_v3 e s q) = Some (Resolved (Some c)) \<and>
   responded (fetch_v2 e s q) = Some (Resolved (Some c)) \<and>
   responded (fetch_v1 e s q) = Some (Resolved (Some c))"
  by (auto simp: intercepted_def cdn_resource_def fetch_v1_def fetch_v2_def fetch_v3_def
      updateCache_def guard_protocol_url split: option.splits)

theorem C3_network_on_hit_witness:
  "fetched (fetch_v3 online [(''ai-learning-v3'', [(''https://app.example/'', page)])]
      (GET ''https://app.example/'' ''text/html'')) = [] \<and>
   fetched (fetch_v2 online [(''ai-learning-v3'', [(''https://app.example/'', page)])]
      (GET ''https://app.example/'' ''text/html'')) = [GET ''https://app.example/'' ''text/html''] \<and>
   fetched (fetch_v1 online [(''ai-learning-v3'', [(''https://app.example/'', page)])]
      (GET ''https://app.example/'' ''text/html'')) = [GET ''https://app.example/'' ''text/html''] \<and>
   fetched (fetch_v2 online [(''stlite-cache-v1'', [(''https://cdn.jsdelivr.net/stlite.js'', page)])]
      (GET ''https://cdn.jsdelivr.net/stlite.js'' ''*/*'')) = []"
proof -
  let ?q = "GET ''https://app.example/'' ''text/html''"
  let ?s = "[(''ai-learning-v3'', [(''https://app.example/'', page)])]"
  let ?k = "GET ''https://cdn.jsdelivr.net/stlite.js'' ''*/*''"
  let ?t = "[(''stlite-cache-v1'', [(''https://cdn.jsdelivr.net/stlite.js'', page)])]"
  have i: "intercepted ?q" "intercepted ?k"
    by (simp_all add: intercepted_def GET_def url_protocol_def startsWith_Cons)
  have hit: "caches_match ?s (url ?q) = Some page" "caches_match ?t (url ?k) = Some page"
    by (simp_all add: GET_def cache_match_def)
  have local: "\<not> cdn_resource ?q"
    by (simp add: cdn_resource_def GET_def url_hostname_def str_includes_def sublist_Cons_right)
  have cdn: "cdn_resource ?k"
    by (simp add: cdn_resource_def GET_def url_hostname_def str_includes_def sublist_Cons_right)
  from C3_network_on_hit [OF i(1) hit(1), where e = online] local
    C3_network_on_hit [OF i(2) hit(2), where e = online] cdn
  show ?thesis
    by simp
qed

text \<open>
  Claim C3 as stated fails: v1 fetches the request from the network although a cached
  response exists.
\<close>

theorem C3_counterexample:
  "intercepted (GET ''https://app.example/'' ''text/html'') \<and>
   caches_match [(''static-v1'', [(''https://app.example/'', page)])]
     (url (GET ''https://app.example/'' ''text/html'')) = Some page \<and>
   fetched (fetch_v1 online [(''static-v1'', [(''https://app.example/'', page)])]
     (GET ''https://app.example/'' ''text/html'')) = [GET ''https://app.example/'' ''text/html'']"
  by (simp add: platform_defs handler_defs startsWith_Cons DYNAMIC_CACHE_def)

lemma responded_passthrough:
  "\<not> intercepted q \<Longrightarrow> fetch_handler v e s q = passthrough s"
  by (cases v) (auto simp: intercepted_def fetch_v1_def fetch_v2_def fetch_v3_def guard_protocol_url)

lemma fetch_event_protocols_http:
  assumes "p \<in> set fetch_event_protocols" and "startsWith p ''http''"
  shows "p = ''http:'' \<or> p = ''https:''"
proof -
  have "list_all (\<lambda>p. startsWith p ''http'' \<longrightarrow> p = ''http:'' \<or> p = ''https:'')
      fetch_event_protocols"
    by (simp add: fetch_event_protocols_def startsWith_Cons)
  with assms show ?thesis
    by (simp add: list_all_iff)
qed

text \<open>
  Claim C9: a fetch event whose request method is not GET, or whose URL protocol is not
  \<^verbatim>\<open>http:\<close> or \<^verbatim>\<open>https:\<close>, passes through every version: \<^verbatim>\<open>respondWith\<close> is
  not called, no fetch is issued and the cache storage is unchanged. The events are those
  a browser dispatches, with a URL of one of its schemes; the guard of the handlers is
  the prefix test \<^verbatim>\<open>startsWith('http')\<close>, which among these schemes selects exactly
  \<^verbatim>\<open>http:\<close> and \<^verbatim>\<open>https:\<close>.
\<close>

theorem C9_passthrough:
  "url_protocol (url q) \<in> set fetch_event_protocols \<Longrightarrow>
   req_method q \<noteq> ''GET'' \<or>
     (url_protocol (url q) \<noteq> ''http:'' \<and> url_protocol (url q) \<noteq> ''https:'') \<Longrightarrow>
   fetch_handler v e s q = \<lparr>responded = None, caches = s, fetched = []\<rparr>"
  using responded_passthrough [of q v e s] fetch_event_protocols_http [of "url_protocol (url q)"]
  by (auto simp: intercepted_def passthrough_def)

theorem C9_passthrough_witness:
  "fetch_handler V2 online [] ((GET ''https://app.example/api/sync'' ''*/*'')\<lparr>req_method := ''POST''\<rparr>)
     = \<lparr>responded = None, caches = [], fetched = []\<rparr> \<and>
   fetch_handler V3 online [] (GET ''chrome-extension://abcdef/popup.js'' ''*/*'')
     = \<lparr>responded = None, caches = [], fetched = []\<rparr> \<and>
   fetch_handler V1 online [] (GET ''data:text/plain,hello'' ''*/*'')
     = \<lparr>responded = None, caches = [], fetched = []\<rparr>"
proof -
  let ?post = "(GET ''https://app.example/api/sync'' ''*/*'')\<lparr>req_method := ''POST''\<rparr>"
  let ?ext = "GET ''chrome-extension://abcdef/popup.js'' ''*/*''"
  let ?data = "GET ''data:text/plain,hello'' ''*/*''"
  have p: "url_protocol (url ?post) = ''https:''" "url_protocol (url ?ext) = ''chrome-extension:''"
    "url_protocol (url ?data) = ''data:''"
    by (simp_all add: GET_def url_protocol_def)
  have known: "url_protocol (url ?post) \<in> set fetch_event_protocols"
    "url_protocol (url ?ext) \<in> set fetch_event_protocols"
    "url_protocol (url ?data) \<in> set fetch_event_protocols"
    unfolding p by (simp_all add: fetch_event_protocols_def)
  have skip: "req_method ?post \<noteq> ''GET''"
    "url_protocol (url ?ext) \<noteq> ''http:'' \<and> url_protocol (url ?ext) \<noteq> ''https:''"
    "url_protocol (url ?data) \<noteq> ''http:'' \<and> url_protocol (url ?data) \<noteq> ''https:''"
    unfolding p by (simp_all add: GET_def)
  from C9_passthrough [OF known(1), where v = V2 and e = online and s = "[]"]
    C9_passthrough [OF known(2), where v = V3 and e = online and s = "[]"]
    C9_passthrough [OF known(3), where v = V1 and e = online and s = "[]"]
    skip
  show ?thesis
    by blast
qed

lemma responded_served:
  "intercepted q \<Longrightarrow> caches_match s (url q) \<noteq> None \<or> net e q \<noteq> None \<Longrightarrow>
   responded (fetch_handler v e s q) =
     Some (Resolved (case caches_match s (url q) of Some c \<Rightarrow> Some c | None \<Rightarrow> net e q))"
  by (cases v)
    (auto simp: intercepted_def fetch_v1_def fetch_v2_def fetch_v3_def updateCache_def
      guard_protocol_url split: option.splits)

lemma responded_intercepted:
  "intercepted q \<Longrightarrow> responded (fetch_handler v e s q) \<noteq> None"
  by (cases v)
    (auto simp: intercepted_def fetch_v1_def fetch_v2_def fetch_v3_def updateCache_def
      guard_protocol_url split: option.splits)

lemma lookup_after_miss:
  "caches_match s (url q) = None \<Longrightarrow>
   caches_match (caches (fetch_handler v e s q)) (url q) =
     (if intercepted q
      then (case net e q of
              Some r \<Rightarrow> if ok r \<and> put_accepts q r then Some r else None
            | None \<Rightarrow> None)
      else None)"
  by (cases v)
    (auto simp: intercepted_def fetch_v1_def fetch_v2_def fetch_v3_def passthrough_def
      guard_protocol_url caches_match_open_put split: option.splits)

text \<open>
  Claim C2, as the code has it: the three versions intercept the same requests; whenever
  the request is in the cache or the network fetch resolves they give the same response;
  and after a cache miss a lookup of the request finds the same response in all of them.
  (The caches they write to, the refresh on a hit and the offline fallback differ.)
\<close>

theorem C2_versions_agree:
  "(responded (fetch_handler v e s q) = None \<longleftrightarrow> responded (fetch_handler v' e s q) = None) \<and>
   (caches_match s (url q) \<noteq> None \<or> net e q \<noteq> None \<longrightarrow>
      responded (fetch_handler v e s q) = responded (fetch_handler v' e s q)) \<and>
   (caches_match s (url q) = None \<longrightarrow>
      caches_match (caches (fetch_handler v e s q)) (url q) =
      caches_match (caches (fetch_handler v' e s q)) (url q))"
proof (cases "intercepted q")
  case True
  then show ?thesis
    by (simp add: responded_intercepted responded_served lookup_after_miss)
next
  case False
  then show ?thesis
    by (simp add: responded_passthrough)
qed

theorem C2_versions_agree_witness:
  "responded (fetch_handler V1 online [] (GET ''https://app.example/'' ''text/html''))
     = responded (fetch_handler V3 online [] (GET ''https://app.example/'' ''text/html'')) \<and>
   caches_match (caches (fetch_handler V1 online [] (GET ''https://app.example/'' ''text/html'')))
       ''https://app.example/''
     = caches_match (caches (fetch_handler V3 online [] (GET ''https://app.example/'' ''text/html'')))
       ''https://app.example/''"
proof -
  let ?q = "GET ''https://app.example/'' ''text/html''"
  have n: "net online ?q \<noteq> None"
    by (simp add: online_def)
  have m: "caches_match [] (url ?q) = None"
    by simp
  from C2_versions_agree [where v = V1 and v' = V3 and e = online and s = "[]" and q = ?q] n m
  show ?thesis
    by (simp add: GET_def)
qed

text \<open>
  Claim C2 as stated fails: on the same miss the three versions leave three different
  cache storages, and offline v3 answers a request that v2 leaves without a response.
\<close>

theorem C2_counterexample:
  "caches (fetch_v1 online [] (GET ''https://app.example/'' ''text/html''))
     = [(''dynamic-v1'', [(''https://app.example/'', page)])] \<and>
   caches (fetch_v2 online [] (GET ''https://app.example/'' ''text/html''))
     = [(''ai-learning-v2'', [(''https://app.example/'', page)])] \<and>
   caches (fetch_v3 online [] (GET ''https://app.example/'' ''text/html''))
     = [(''ai-learning-v3'', [(''https://app.example/'', page)])] \<and>
   caches (fetch_v1 online [] (GET ''https://app.example/'' ''text/html''))
     \<noteq> caches (fetch_v3 online [] (GET ''https://app.example/'' ''text/html'')) \<and>
   responded (fetch_v3 offline [(''c'', [(''https://app.example/index.html'', page)])]
      (GET ''https://app.example/logo.png'' ''image/png'')) = Some (Resolved (Some page)) \<and>
   responded (fetch_v2 offline [(''c'', [(''https://app.example/index.html'', page)])]
      (GET ''https://app.example/logo.png'' ''image/png'')) = Some (Resolved None)"
  by (simp add: platform_defs handler_defs startsWith_Cons sublist_Cons_right
      DYNAMIC_CACHE_def CACHE_NAME_v2_def CACHE_NAME_v3_def)

text \<open>
  Claim C5, as the code has it. When an intercepted request is not in the cache and the
  network fetch fails: v3 answers with whatever \<^verbatim>\<open>caches.match('./index.html')\<close>
  finds, for every request; the local branch of v2 answers with the cached
  \<^verbatim>\<open>/index.html\<close> when the Accept header includes \<^verbatim>\<open>text/html\<close> and with no
  response otherwise; the CDN branch of v2 has no catch, so the rejection reaches
  \<^verbatim>\<open>respondWith\<close>; v1, for a request that carries an Accept header, answers with the
  cached \<^verbatim>\<open>/offline.html\<close> when the header includes \<^verbatim>\<open>text/html\<close> and with no
  response otherwise. No cache is changed. The catch on the miss path is not the only
  failure handling: on a cache hit, v1 and the local branch of v2 swallow a failed
  background refresh and serve the cached response.
\<close>

theorem C5_network_failure:
  "intercepted q \<Longrightarrow> net e q = None \<Longrightarrow>
   (caches_match s (url q) = None \<longrightarrow>
      fetch_v3 e s q =
        \<lparr>responded = Some (Resolved (caches_match s (resolve e ''./index.html''))),
         caches = s, fetched = [q]\<rparr> \<and>
      (\<not> cdn_resource q \<longrightarrow>
         fetch_v2 e s q =
           \<lparr>responded = Some (Resolved (if wants_html q
                                          then caches_match s (resolve e ''/index.html'')
                                          else None)),
            caches = s, fetched = [q]\<rparr>) \<and>
      (cdn_resource q \<longrightarrow>
         fetch_v2 e s q = \<lparr>responded = Some Rejected, caches = s, fetched = [q]\<rparr>) \<and>
      (headers_get (headers q) ''accept'' \<noteq> None \<longrightarrow>
         fetch_v1 e s q =
           \<lparr>responded = Some (Resolved (if wants_html q
                                          then caches_match s (resolve e ''/offline.html'')
                                          else None)),
            caches = s, fetched = [q]\<rparr>)) \<and>
   (caches_match s (url q) = Some c \<longrightarrow>
      fetch_v1 e s q = \<lparr>responded = Some (Resolved (Some c)), caches = s, fetched = [q]\<rparr> \<and>
      (\<not> cdn_resource q \<longrightarrow>
         fetch_v2 e s q = \<lparr>responded = Some (Resolved (Some c)), caches = s, fetched = [q]\<rparr>))"
  by (auto simp: intercepted_def cdn_resource_def wants_html_def fetch_v1_def fetch_v2_def
      fetch_v3_def updateCache_def guard_protocol_url split: option.splits)

theorem C5_network_failure_witness:
  "fetch_v3 offline [(''ai-learning-v3'', [(''https://app.example/index.html'', page)])]
      (GET ''https://app.example/lesson/2'' ''text/html,*/*'')
     = \<lparr>responded = Some (Resolved (Some page)),
        caches = [(''ai-learning-v3'', [(''https://app.example/index.html'', page)])],
        fetched = [GET ''https://app.example/lesson/2'' ''text/html,*/*'']\<rparr> \<and>
   fetch_v2 offline [(''ai-learning-v3'', [(''https://app.example/index.html'', page)])]
      (GET ''https://app.example/lesson/2'' ''text/html,*/*'')
     = \<lparr>responded = Some (Resolved (Some page)),
        caches = [(''ai-learning-v3'', [(''https://app.example/index.html'', page)])],
        fetched = [GET ''https://app.example/lesson/2'' ''text/html,*/*'']\<rparr> \<and>
   fetch_v1 offline [(''ai-learning-v3'', [(''https://app.example/index.html'', page)])]
      (GET ''https://app.example/lesson/2'' ''text/html,*/*'')
     = \<lparr>responded = Some (Resolved None),
        caches = [(''ai-learning-v3'', [(''https://app.example/index.html'', page)])],
        fetched = [GET ''https://app.example/lesson/2'' ''text/html,*/*'']\<rparr> \<and>
   fetch_v1 offline [(''static-v1'', [(''https://app.example/'', page)])]
      (GET ''https://app.example/'' ''text/html,*/*'')
     = \<lparr>responded = Some (Resolved (Some page)),
        caches = [(''static-v1'', [(''https://app.example/'', page)])],
        fetched = [GET ''https://app.example/'' ''text/html,*/*'']\<rparr> \<and>
   fetch_v2 offline [] (GET ''https://cdn.jsdelivr.net/stlite.js'' ''*/*'')
     = \<lparr>responded = Some Rejected, caches = [],
        fetched = [GET ''https://cdn.jsdelivr.net/stlite.js'' ''*/*'']\<rparr>"
proof -
  let ?k = "GET ''https://cdn.jsdelivr.net/stlite.js'' ''*/*''"
  have k: "intercepted ?k" "net offline ?k = None" "caches_match [] (url ?k) = None"
    "cdn_resource ?k"
    by (simp_all add: intercepted_def GET_def url_protocol_def startsWith_Cons offline_def
        cdn_resource_def url_hostname_def str_includes_def sublist_Cons_right)
  let ?q = "GET ''https://app.example/lesson/2'' ''text/html,*/*''"
  let ?s = "[(''ai-learning-v3'', [(''https://app.example/index.html'', page)])]"
  let ?h = "GET ''https://app.example/'' ''text/html,*/*''"
  let ?t = "[(''static-v1'', [(''https://app.example/'', page)])]"
  have i: "intercepted ?q" "intercepted ?h"
    by (simp_all add: intercepted_def GET_def url_protocol_def startsWith_Cons)
  have off: "net offline ?q = None" "net offline ?h = None"
    by (simp_all add: offline_def)
  have miss: "caches_match ?s (url ?q) = None"
    by (simp add: GET_def cache_match_def)
  have hit: "caches_match ?t (url ?h) = Some page"
    by (simp add: GET_def cache_match_def)
  have local: "\<not> cdn_resource ?q"
    by (simp add: cdn_resource_def GET_def url_hostname_def str_includes_def sublist_Cons_right)
  have html: "wants_html ?q" "headers_get (headers ?q) ''accept'' \<noteq> None"
    by (simp_all add: wants_html_def GET_def headers_get_def str_includes_def sublist_Cons_right)
  have index: "caches_match ?s (resolve offline ''./index.html'') = Some page"
    "caches_match ?s (resolve offline ''/index.html'') = Some page"
    "caches_match ?s (resolve offline ''/offline.html'') = None"
    by (simp_all add: offline_def origin_resolve_def startsWith_Cons cache_match_def)
  from C5_network_failure [OF i(1) off(1), where s = ?s] miss local html index
    C5_network_failure [OF i(2) off(2), where s = ?t and c = page] hit
    C5_network_failure [OF k(1) k(2), where s = "[]"] k(3) k(4)
  show ?thesis
    by simp
qed

text \<open>
  Claim C5 as stated fails: on a miss with a failed fetch, v1 gives a stylesheet request
  no response at all, although a page is cached; and on a hit it handles the failed
  refresh in \<^verbatim>\<open>updateCache\<close>, a second failure path.
\<close>

theorem C5_counterexample:
  "intercepted (GET ''https://app.example/static/styles.css'' ''text/css'') \<and>
   net offline (GET ''https://app.example/static/styles.css'' ''text/css'') = None \<and>
   caches_match [(''static-v1'', [(''https://app.example/offline.html'', page)])]
     (url (GET ''https://app.example/static/styles.css'' ''text/css'')) = None \<and>
   responded (fetch_v1 offline [(''static-v1'', [(''https://app.example/offline.html'', page)])]
     (GET ''https://app.example/static/styles.css'' ''text/css'')) = Some (Resolved None)"
  by (simp add: platform_defs handler_defs startsWith_Cons sublist_Cons_right)

text \<open>
  Claim C10, as the code has it. When the cache lookup misses and the network fetch fails,
  the handler answers with a response exactly in these cases: v3, when
  \<^verbatim>\<open>./index.html\<close> is cached; the local branch of v2, when the Accept header is
  present and includes \<^verbatim>\<open>text/html\<close> and \<^verbatim>\<open>/index.html\<close> is cached (the CDN branch
  never); v1, for a request that carries an Accept header, when the header includes
  \<^verbatim>\<open>text/html\<close> and \<^verbatim>\<open>/offline.html\<close> is cached.
\<close>

theorem C10_fallback_answered:
  "intercepted q \<Longrightarrow> caches_match s (url q) = None \<Longrightarrow> net e q = None \<Longrightarrow>
   (answered (fetch_v3 e s q) \<longleftrightarrow> caches_match s (resolve e ''./index.html'') \<noteq> None) \<and>
   (answered (fetch_v2 e s q) \<longleftrightarrow>
      \<not> cdn_resource q \<and> wants_html q \<and> caches_match s (resolve e ''/index.html'') \<noteq> None) \<and>
   (headers_get (headers q) ''accept'' \<noteq> None \<longrightarrow>
      (answered (fetch_v1 e s q) \<longleftrightarrow>
         wants_html q \<and> caches_match s (resolve e ''/offline.html'') \<noteq> None))"
  by (auto simp: intercepted_def cdn_resource_def wants_html_def answered_def fetch_v1_def
      fetch_v2_def fetch_v3_def guard_protocol_url split: option.splits)

theorem C10_fallback_answered_witness:
  "answered (fetch_v3 offline [(''ai-learning-v2'', [(''https://app.example/index.html'', page)])]
      (GET ''https://app.example/quiz/1'' ''text/html'')) \<and>
   answered (fetch_v2 offline [(''ai-learning-v2'', [(''https://app.example/index.html'', page)])]
      (GET ''https://app.example/quiz/1'' ''text/html'')) \<and>
   \<not> answered (fetch_v1 offline [(''ai-learning-v2'', [(''https://app.example/index.html'', page)])]
      (GET ''https://app.example/quiz/1'' ''text/html''))"
proof -
  let ?q = "GET ''https://app.example/quiz/1'' ''text/html''"
  let ?s = "[(''ai-learning-v2'', [(''https://app.example/index.html'', page)])]"
  have i: "intercepted ?q"
    by (simp add: intercepted_def GET_def url_protocol_def startsWith_Cons)
  have off: "net offline ?q = None"
    by (simp add: offline_def)
  have miss: "caches_match ?s (url ?q) = None"
    by (simp add: GET_def cache_match_def)
  have local: "\<not> cdn_resource ?q"
    by (simp add: cdn_resource_def GET_def url_hostname_def str_includes_def sublist_Cons_right)
  have html: "wants_html ?q" "headers_get (headers ?q) ''accept'' \<noteq> None"
    by (simp_all add: wants_html_def GET_def headers_get_def str_includes_def sublist_Cons_right)
  have index: "caches_match ?s (resolve offline ''./index.html'') = Some page"
    "caches_match ?s (resolve offline ''/index.html'') = Some page"
    "caches_match ?s (resolve offline ''/offline.html'') = None"
    by (simp_all add: offline_def origin_resolve_def startsWith_Cons cache_match_def)
  from C10_fallback_answered [OF i miss off] local html index
  show ?thesis
    by simp
qed

text \<open>
  Claim C10 as stated fails: with \<^verbatim>\<open>/index.html\<close> in the cache, v2 resolves to
  \<^verbatim>\<open>undefined\<close> for a request without an Accept header and for one whose Accept header
  does not include \<^verbatim>\<open>text/html\<close>.
\<close>

theorem C10_counterexample:
  "responded (fetch_v2 offline [(''ai-learning-v2'', [(''https://app.example/index.html'', page)])]
      \<lparr>req_method = ''GET'', url = ''https://app.example/data/lessons.json'', headers = [],
       payload = None\<rparr>) = Some (Resolved None) \<and>
   responded (fetch_v2 offline [(''ai-learning-v2'', [(''https://app.example/index.html'', page)])]
      (GET ''https://app.example/static/icons/icon-192.svg'' ''image/svg+xml''))
     = Some (Resolved None)"
  by (simp add: platform_defs handler_defs startsWith_Cons sublist_Cons_right)

text \<open>
  The one case the statement above leaves open: without an Accept header, the catch
  branch of v1 calls \<^verbatim>\<open>includes\<close> on \<^verbatim>\<open>null\<close>, and the promise given to
  \<^verbatim>\<open>respondWith\<close> rejects.
\<close>

lemma fetch_v1_without_accept:
  "intercepted q \<Longrightarrow> caches_match s (url q) = None \<Longrightarrow> net e q = None \<Longrightarrow>
   headers_get (headers q) ''accept'' = None \<Longrightarrow>
   fetch_v1 e s q = \<lparr>responded = Some Rejected, caches = s, fetched = [q]\<rparr>"
  by (simp add: intercepted_def fetch_v1_def)

section \<open>The activate handlers\<close>

lemma fold_caches_delete:
  "fold caches_delete names s = filter (\<lambda>p. fst p \<notin> set names) s"
proof (induction names arbitrary: s)
  case Nil
  then show ?case by simp
next
  case (Cons name names)
  have "fold caches_delete (name # names) s = fold caches_delete names (caches_delete name s)"
    by simp
  also have "\<dots> = filter (\<lambda>p. fst p \<notin> set names) (caches_delete name s)"
    by (rule Cons.IH)
  also have "\<dots> = filter (\<lambda>p. fst p \<notin> set (name # names)) s"
    by (auto simp: caches_delete_def intro: filter_cong)
  finally show ?case .
qed

lemma activate_keeps:
  "fold caches_delete (filter (\<lambda>name. \<not> keep name) (caches_keys s)) s = filter (\<lambda>p. keep (fst p)) s"
proof -
  have "\<And>p. p \<in> set s \<Longrightarrow> (fst p \<notin> set (filter (\<lambda>name. \<not> keep name) (caches_keys s))) = keep (fst p)"
    by (auto simp: caches_keys_def)
  then show ?thesis
    unfolding fold_caches_delete by (intro filter_cong) auto
qed

text \<open>
  What activation leaves: v1 and v3 keep exactly the caches of their own version, with
  their entries, and delete every other cache; v2 keeps every cache whose name starts
  with \<^verbatim>\<open>ai-learning\<close> or \<^verbatim>\<open>stlite\<close>.
\<close>

lemma activate_v1_result:
  "activate_v1 s = filter (\<lambda>p. fst p = STATIC_CACHE \<or> fst p = DYNAMIC_CACHE) s"
  using activate_keeps [of "\<lambda>name. name = STATIC_CACHE \<or> name = DYNAMIC_CACHE" s]
  by (simp add: activate_v1_def)

lemma activate_v3_result:
  "activate_v3 s = filter (\<lambda>p. fst p = CACHE_NAME_v3) s"
  using activate_keeps [of "\<lambda>name. name = CACHE_NAME_v3" s]
  by (simp add: activate_v3_def)

lemma activate_v2_result:
  "activate_v2 s =
     filter (\<lambda>p. startsWith (fst p) ''ai-learning'' \<or> startsWith (fst p) ''stlite'') s"
  using activate_keeps [of "\<lambda>name. startsWith name ''ai-learning'' \<or> startsWith name ''stlite''" s]
  by (simp add: activate_v2_def)

text \<open>
  Claim C4 holds of v1 and v3 (the two lemmas above) and fails in v2: the cache
  \<^verbatim>\<open>ai-learning-v3\<close> of another version survives the activation of v2, with its
  entries, and \<^verbatim>\<open>caches.match\<close> goes on serving them.
\<close>

theorem C4_activate_v2_keeps_stale_cache:
  "activate_v2
     [(''ai-learning-v3'', [(''https://app.example/index.html'', page)]),
      (''dynamic-v1'', [(''https://app.example/quiz'', page)]),
      (''ai-learning-v2'', [(''https://app.example/index.html'', not_found)])]
   = [(''ai-learning-v3'', [(''https://app.example/index.html'', page)]),
      (''ai-learning-v2'', [(''https://app.example/index.html'', not_found)])] \<and>
   ''ai-learning-v3'' \<noteq> CACHE_NAME_v2 \<and> ''ai-learning-v3'' \<noteq> STLITE_CACHE \<and>
   caches_match
     (activate_v2
        [(''ai-learning-v3'', [(''https://app.example/index.html'', page)]),
         (''dynamic-v1'', [(''https://app.example/quiz'', page)]),
         (''ai-learning-v2'', [(''https://app.example/index.html'', not_found)])])
     ''https://app.example/index.html'' = Some page"
  by (simp add: activate_v2_result startsWith_Cons CACHE_NAME_v2_def STLITE_CACHE_def
      cache_match_def)

section \<open>The install handlers\<close>

lemma fetch_all_ok:
  "fetch_all e qs = Some qrs \<Longrightarrow>
   map fst qrs = qs \<and> (\<forall>p \<in> set qrs. net e (fst p) = Some (snd p) \<and> ok (snd p))"
  by (induction qs arbitrary: qrs) (auto split: option.splits if_splits)

lemma fetch_all_complete:
  "(\<forall>q \<in> set qs. \<exists>r. net e q = Some r \<and> ok r \<and> put_accepts q r) \<Longrightarrow>
   \<exists>qrs. fetch_all e qs = Some qrs"
  by (induction qs) auto

lemma cache_match_fold_put:
  "cache_match (fold (\<lambda>(q, r). cache_put (url q) r) qrs c) k =
     (case map_of (rev (map (\<lambda>(q, r). (url q, r)) qrs)) k of
        Some r \<Rightarrow> Some r
      | None \<Rightarrow> cache_match c k)"
proof (induction qrs arbitrary: c)
  case Nil
  then show ?case by simp
next
  case (Cons p qrs)
  obtain q r where p: "p = (q, r)"
    by (cases p)
  show ?case
    by (auto simp: p Cons.IH cache_match_put map_add_def split: option.splits)
qed

lemma cache_addAll_stored:
  assumes "cache_addAll e urls c = Some c'" and "u \<in> set urls"
  shows "\<exists>r. cache_match c' (resolve e u) = Some r \<and> ok r"
proof -
  from assms(1) obtain qrs where
    qrs: "fetch_all e (map (Request e) urls) = Some qrs"
    and c': "c' = fold (\<lambda>(q, r). cache_put (url q) r) qrs c"
    by (auto simp: cache_addAll_def split: option.splits)
  let ?al = "rev (map (\<lambda>(q, r). (url q, r)) qrs)"
  from fetch_all_ok [OF qrs] have fst: "map fst qrs = map (Request e) urls"
    and oks: "\<forall>p \<in> set qrs. ok (snd p)"
    by auto
  from assms(2) have "Request e u \<in> set (map fst qrs)"
    by (simp add: fst)
  then obtain r0 where "(Request e u, r0) \<in> set qrs"
    by auto
  then have "resolve e u \<in> fst ` set ?al"
    by (force simp: Request_def)
  then obtain r where r: "map_of ?al (resolve e u) = Some r"
    by (metis domD dom_map_of_conv_image_fst)
  then have "(resolve e u, r) \<in> set ?al"
    by (rule map_of_SomeD)
  then have "ok r"
    using oks by auto
  with r show ?thesis
    by (simp add: c' cache_match_fold_put)
qed

lemma cache_of_modify:
  "name \<in> set (caches_keys s) \<Longrightarrow> cache_of (caches_modify name f s) name = f (cache_of s name)"
  by (induction s) (force simp: cache_of_def caches_keys_def image_iff)+

lemma cache_of_modify_other:
  "n \<noteq> name \<Longrightarrow> cache_of (caches_modify name f s) n = cache_of s n"
  by (induction s) (auto simp: cache_of_def)

lemma cache_of_open_other:
  "n \<noteq> name \<Longrightarrow> cache_of (caches_open name s) n = cache_of s n"
  by (simp add: cache_of_def caches_open_def map_add_def split: option.splits)

lemma caches_keys_open: "name \<in> set (caches_keys (caches_open name s))"
  by (simp add: caches_open_def caches_keys_def)

lemma open_addAll_stored:
  assumes "open_addAll e name urls s = (True, s')" and "u \<in> set urls"
  shows "\<exists>r. cache_match (cache_of s' name) (resolve e u) = Some r \<and> ok r"
proof -
  from assms(1) obtain c where
    c: "cache_addAll e urls (cache_of (caches_open name s) name) = Some c"
    and s': "s' = caches_modify name (\<lambda>_. c) (caches_open name s)"
    by (auto simp: open_addAll_def Let_def split: option.splits)
  have "cache_of s' name = c"
    by (simp add: s' cache_of_modify caches_keys_open)
  with cache_addAll_stored [OF c assms(2)] show ?thesis
    by simp
qed

lemma open_addAll_other:
  "open_addAll e name urls s = (d, s') \<Longrightarrow> n \<noteq> name \<Longrightarrow> cache_of s' n = cache_of s n"
  by (auto simp: open_addAll_def Let_def cache_of_modify_other cache_of_open_other
      split: option.splits)

lemma open_addAll_completes:
  "(\<forall>u \<in> set urls. \<exists>r. net e (Request e u) = Some r \<and> ok r \<and> put_accepts (Request e u) r) \<Longrightarrow>
   fst (open_addAll e name urls s)"
  using fetch_all_complete [of "map (Request e) urls" e]
  by (auto simp: open_addAll_def Let_def cache_addAll_def split: option.splits)

text \<open>
  Claim C6: when the installation completes, every URL of \<^verbatim>\<open>STATIC_ASSETS\<close> has an
  entry in the named cache of the version (\<^verbatim>\<open>static-v1\<close>, \<^verbatim>\<open>ai-learning-v2\<close>,
  \<^verbatim>\<open>ai-learning-v3\<close>), and in v2 every URL of \<^verbatim>\<open>STLITE_RESOURCES\<close> has one in
  \<^verbatim>\<open>stlite-cache-v1\<close>; each of these entries is an \<^verbatim>\<open>ok\<close> response.
\<close>

theorem C6_install_populates:
  "(completed (install_v1 e s) \<longrightarrow>
      (\<forall>u \<in> set STATIC_ASSETS_v1.
         \<exists>r. cache_match (cache_of (storage (install_v1 e s)) STATIC_CACHE) (resolve e u) = Some r
           \<and> ok r)) \<and>
   (completed (install_v2 e s) \<longrightarrow>
      (\<forall>u \<in> set STATIC_ASSETS_v2.
         \<exists>r. cache_match (cache_of (storage (install_v2 e s)) CACHE_NAME_v2) (resolve e u) = Some r
           \<and> ok r) \<and>
      (\<forall>u \<in> set STLITE_RESOURCES.
         \<exists>r. cache_match (cache_of (storage (install_v2 e s)) STLITE_CACHE) (resolve e u) = Some r
           \<and> ok r)) \<and>
   (completed (install_v3 e s) \<longrightarrow>
      (\<forall>u \<in> set STATIC_ASSETS_v3.
         \<exists>r. cache_match (cache_of (storage (install_v3 e s)) CACHE_NAME_v3) (resolve e u) = Some r
           \<and> ok r))"
proof (intro conjI impI ballI)
  fix u assume "completed (install_v1 e s)" and u: "u \<in> set STATIC_ASSETS_v1"
  then obtain s' where "open_addAll e STATIC_CACHE STATIC_ASSETS_v1 s = (True, s')"
    and "storage (install_v1 e s) = s'"
    by (auto simp: install_v1_def split: prod.splits)
  with open_addAll_stored [of e STATIC_CACHE STATIC_ASSETS_v1 s s' u] u
  show "\<exists>r. cache_match (cache_of (storage (install_v1 e s)) STATIC_CACHE) (resolve e u) = Some r
      \<and> ok r"
    by simp
next
  fix u assume "completed (install_v3 e s)" and u: "u \<in> set STATIC_ASSETS_v3"
  then obtain s' where "open_addAll e CACHE_NAME_v3 STATIC_ASSETS_v3 s = (True, s')"
    and "storage (install_v3 e s) = s'"
    by (auto simp: install_v3_def split: prod.splits)
  with open_addAll_stored [of e CACHE_NAME_v3 STATIC_ASSETS_v3 s s' u] u
  show "\<exists>r. cache_match (cache_of (storage (install_v3 e s)) CACHE_NAME_v3) (resolve e u) = Some r
      \<and> ok r"
    by simp
next
  fix u assume comp: "completed (install_v2 e s)" and u: "u \<in> set STATIC_ASSETS_v2"
  then obtain s1 s2 where one: "open_addAll e CACHE_NAME_v2 STATIC_ASSETS_v2 s = (True, s1)"
    and two: "open_addAll e STLITE_CACHE STLITE_RESOURCES s1 = (True, s2)"
    and st: "storage (install_v2 e s) = s2"
    by (auto simp: install_v2_def split: prod.splits)
  have "CACHE_NAME_v2 \<noteq> STLITE_CACHE"
    by (simp add: CACHE_NAME_v2_def STLITE_CACHE_def)
  from open_addAll_other [OF two this] have "cache_of s2 CACHE_NAME_v2 = cache_of s1 CACHE_NAME_v2" .
  with open_addAll_stored [OF one u] st
  show "\<exists>r. cache_match (cache_of (storage (install_v2 e s)) CACHE_NAME_v2) (resolve e u) = Some r
      \<and> ok r"
    by simp
next
  fix u assume comp: "completed (install_v2 e s)" and u: "u \<in> set STLITE_RESOURCES"
  then obtain s1 s2 where two: "open_addAll e STLITE_CACHE STLITE_RESOURCES s1 = (True, s2)"
    and st: "storage (install_v2 e s) = s2"
    by (auto simp: install_v2_def split: prod.splits)
  with open_addAll_stored [OF two u]
  show "\<exists>r. cache_match (cache_of (storage (install_v2 e s)) STLITE_CACHE) (resolve e u) = Some r
      \<and> ok r"
    by simp
qed

theorem C6_install_populates_witness:
  "completed (install_v1 online []) \<and> completed (install_v2 online []) \<and>
   completed (install_v3 online []) \<and>
   (\<exists>r. cache_match (cache_of (storage (install_v1 online [])) STATIC_CACHE)
          (resolve online ''/static/styles.css'') = Some r \<and> ok r) \<and>
   (\<exists>r. cache_match (cache_of (storage (install_v2 online [])) CACHE_NAME_v2)
          (resolve online ''/static/icons/icon-512.svg'') = Some r \<and> ok r) \<and>
   (\<exists>r. cache_match (cache_of (storage (install_v2 online [])) STLITE_CACHE)
          (resolve online ''https://cdn.jsdelivr.net/npm/@stlite/mountable@0.42.3/build/stlite.js'')
          = Some r \<and> ok r) \<and>
   (\<exists>r. cache_match (cache_of (storage (install_v3 online [])) CACHE_NAME_v3)
          (resolve online ''./index.html'') = Some r \<and> ok r)"
proof -
  have c1: "completed (install_v1 online [])"
    by (simp add: install_v1_def open_addAll_def Let_def cache_addAll_def STATIC_ASSETS_v1_def
        Request_def online_def page_def ok_def put_accepts_def url_protocol_def
        origin_resolve_def startsWith_Cons)
  have c2: "completed (install_v2 online [])"
    by (simp add: install_v2_def open_addAll_def Let_def cache_addAll_def STATIC_ASSETS_v2_def
        STLITE_RESOURCES_def Request_def online_def page_def ok_def put_accepts_def
        url_protocol_def origin_resolve_def startsWith_Cons)
  have c3: "completed (install_v3 online [])"
    by (simp add: install_v3_def open_addAll_def Let_def cache_addAll_def STATIC_ASSETS_v3_def
        Request_def online_def page_def ok_def put_accepts_def url_protocol_def
        origin_resolve_def startsWith_Cons)
  have m: "''/static/styles.css'' \<in> set STATIC_ASSETS_v1"
    "''/static/icons/icon-512.svg'' \<in> set STATIC_ASSETS_v2"
    "''https://cdn.jsdelivr.net/npm/@stlite/mountable@0.42.3/build/stlite.js'' \<in> set STLITE_RESOURCES"
    "''./index.html'' \<in> set STATIC_ASSETS_v3"
    by (simp_all add: STATIC_ASSETS_v1_def STATIC_ASSETS_v2_def STLITE_RESOURCES_def
        STATIC_ASSETS_v3_def)
  from C6_install_populates [of online "[]"] c1 c2 c3 m show ?thesis
    by blast
qed

text \<open>
  The installation completes when every listed asset is fetched with an ok response that
  \<^verbatim>\<open>cache.put\<close> accepts.
\<close>

lemma install_v3_completes:
  "(\<forall>u \<in> set STATIC_ASSETS_v3. \<exists>r. net e (Request e u) = Some r \<and> ok r \<and> put_accepts (Request e u) r) \<Longrightarrow>
   completed (install_v3 e s)"
  using open_addAll_completes [of STATIC_ASSETS_v3 e CACHE_NAME_v3 s]
  by (auto simp: install_v3_def split: prod.splits)

lemma install_v1_completes:
  "(\<forall>u \<in> set STATIC_ASSETS_v1. \<exists>r. net e (Request e u) = Some r \<and> ok r \<and> put_accepts (Request e u) r) \<Longrightarrow>
   completed (install_v1 e s)"
  using open_addAll_completes [of STATIC_ASSETS_v1 e STATIC_CACHE s]
  by (auto simp: install_v1_def split: prod.splits)

lemma install_v2_completes:
  "(\<forall>u \<in> set (STATIC_ASSETS_v2 @ STLITE_RESOURCES). \<exists>r. net e (Request e u) = Some r \<and> ok r \<and> put_accepts (Request e u) r) \<Longrightarrow>
   completed (install_v2 e s)"
proof -
  assume all: "\<forall>u \<in> set (STATIC_ASSETS_v2 @ STLITE_RESOURCES). \<exists>r. net e (Request e u) = Some r \<and> ok r \<and> put_accepts (Request e u) r"
  obtain d1 s1 where one: "open_addAll e CACHE_NAME_v2 STATIC_ASSETS_v2 s = (d1, s1)"
    by (cases "open_addAll e CACHE_NAME_v2 STATIC_ASSETS_v2 s")
  obtain d2 s2 where two: "open_addAll e STLITE_CACHE STLITE_RESOURCES s1 = (d2, s2)"
    by (cases "open_addAll e STLITE_CACHE STLITE_RESOURCES s1")
  from all open_addAll_completes [of STATIC_ASSETS_v2 e CACHE_NAME_v2 s] one have d1
    by simp
  moreover from all open_addAll_completes [of STLITE_RESOURCES e STLITE_CACHE s1] two have d2
    by simp
  ultimately show ?thesis
    by (simp add: install_v2_def one two)
qed

section \<open>The background-sync stub\<close>

lemma map_of_setItem: "map_of (setItem k v items) k = Some v"
  by (induction items) auto

text \<open>
  The control flow of the stub on a sync event tagged \<^verbatim>\<open>sync-progress\<close>: the stored
  queue changes only when the queue was read, had items, and the promise of the POST to
  \<^verbatim>\<open>/api/sync\<close> fulfilled, and then \<^verbatim>\<open>syncQueue\<close> holds \<^verbatim>\<open>[]\<close>; when reading
  the queue throws or the \<^verbatim>\<open>fetch\<close> rejects, the storage is unchanged; a queue without
  items causes no network request. The response of the POST is never read.
\<close>

lemma sync_v1_outcome:
  "sync_v1 e ''sync-progress'' ls = (ls', reqs) \<Longrightarrow>
   (ls' \<noteq> ls \<longrightarrow>
      (\<exists>syncData response items.
         getSyncQueue e ls = Some syncData \<and> has_items e syncData \<and>
         net e (sync_request e syncData) = Some response \<and>
         reqs = [sync_request e syncData] \<and>
         ls' = Some items \<and> map_of items ''syncQueue'' = Some ''[]'')) \<and>
   (getSyncQueue e ls = None \<longrightarrow> ls' = ls \<and> reqs = []) \<and>
   (getSyncQueue e ls = Some syncData \<and> net e (sync_request e syncData) = None \<longrightarrow> ls' = ls) \<and>
   (getSyncQueue e ls = Some syncData \<and> \<not> has_items e syncData \<longrightarrow> ls' = ls \<and> reqs = []) \<and>
   (getSyncQueue e ls = Some syncData \<and> has_items e syncData \<and>
    net e (sync_request e syncData) = Some response \<longrightarrow>
      reqs = [sync_request e syncData] \<and>
      (\<exists>items. ls' = Some items \<and> map_of items ''syncQueue'' = Some ''[]''))"
  by (auto simp: sync_v1_def syncProgress_def clearSyncQueue_def getSyncQueue_def map_of_setItem
      split: option.splits if_splits)


text \<open>
  With a network that rejects the \<^verbatim>\<open>fetch\<close>, with a stored text that does not parse,
  and with an empty queue, the storage is unchanged, and the last two issue no request.
\<close>

lemma sync_v1_unchanged:
  "sync_v1 offline ''sync-progress'' (Some [(''syncQueue'', ''[7]'')])
     = (Some [(''syncQueue'', ''[7]'')], [sync_request offline (JArr [JNum 7])]) \<and>
   sync_v1 online ''sync-progress'' (Some [(''syncQueue'', ''{'')])
     = (Some [(''syncQueue'', ''{'')], []) \<and>
   sync_v1 online ''sync-progress'' (Some []) = (Some [], []) \<and>
   sync_v1 online ''sync-progress'' None = (None, [])"
  by (simp add: sync_v1_def syncProgress_def getSyncQueue_def clearSyncQueue_def
      online_def offline_def tiny_parse_def)

section \<open>What the fetch handlers write\<close>

lemma entries_Cons:
  "entries ((name, c) # s) = (\<lambda>(u, r). (name, u, r)) ` set c \<union> entries s"
  by (auto simp: entries_def)

lemma entries_Nil: "entries [] = {}"
  by (simp add: entries_def)

lemma entries_append: "entries (s @ t) = entries s \<union> entries t"
  by (simp add: entries_def)

lemma set_cache_put: "set (cache_put u r c) \<subseteq> insert (u, r) (set c)"
  by (induction c) (auto split: if_splits)

lemma entries_modify_put:
  "entries (caches_modify name (cache_put u r) s) \<subseteq> insert (name, u, r) (entries s)"
proof (induction s)
  case Nil
  then show ?case by auto
next
  case (Cons p s)
  obtain n c where p: "p = (n, c)"
    by (cases p)
  from set_cache_put [of u r c] Cons.IH show ?case
    by (auto simp: p entries_Cons)
qed

lemma entries_open: "entries (caches_open name s) = entries s"
  by (simp add: caches_open_def entries_append entries_Cons entries_Nil)

lemma entries_open_put:
  "entries (open_put name q r s) \<subseteq> insert (name, url q, r) (entries s)"
  using entries_modify_put [of name "url q" r "caches_open name s"]
  by (auto simp: open_put_def entries_open)

text \<open>
  One run: every entry of the storage a fetch handler leaves was there before, or is an
  \<^verbatim>\<open>ok\<close> response (the one the network gave for the request of the run).
\<close>

lemma fetch_handler_entries:
  assumes "x \<in> entries (caches (fetch_handler v e s q))"
  shows "x \<in> entries s \<or> (net e q = Some (snd (snd x)) \<and> ok (snd (snd x)) \<and> fst (snd x) = url q)"
proof -
  have put: "\<And>name r. x \<in> entries (open_put name q r s) \<Longrightarrow> x \<in> entries s \<or> x = (name, url q, r)"
    using entries_open_put by blast
  show ?thesis
  proof (cases v)
    case V1
    with assms show ?thesis
      by (auto simp: fetch_v1_def passthrough_def updateCache_def
          split: if_splits option.splits dest!: put)
  next
    case V2
    with assms show ?thesis
      by (auto simp: fetch_v2_def passthrough_def split: if_splits option.splits dest!: put)
  next
    case V3
    with assms show ?thesis
      by (auto simp: fetch_v3_def passthrough_def split: if_splits option.splits dest!: put)
  qed
qed

text \<open>
  Claim C8: after any sequence of fetch-handler runs, of any versions and on any
  networks, every entry of the cache storage that was not there at the start is an
  \<^verbatim>\<open>ok\<close> response.
\<close>

theorem C8_only_ok_stored:
  "(name, u, r) \<in> entries (run_fetches events s) \<Longrightarrow> (name, u, r) \<in> entries s \<or> ok r"
proof (induction events arbitrary: s)
  case Nil
  then show ?case by simp
next
  case (Cons event events)
  obtain v e q where event: "event = (v, e, q)"
    by (cases event)
  from Cons.prems have "(name, u, r) \<in> entries (run_fetches events (caches (fetch_handler v e s q)))"
    by (simp add: event)
  then have "(name, u, r) \<in> entries (caches (fetch_handler v e s q)) \<or> ok r"
    by (rule Cons.IH)
  then show ?case
    using fetch_handler_entries [of "(name, u, r)" v e s q] by auto
qed

theorem C8_only_ok_stored_witness:
  "run_fetches
     [(V3, erring, GET ''https://app.example/missing'' ''text/html''),
      (V1, online, GET ''https://app.example/lesson/1'' ''text/html''),
      (V2, online, GET ''https://cdn.jsdelivr.net/npm/pyodide.js'' ''*/*'')] []
   = [(''dynamic-v1'', [(''https://app.example/lesson/1'', page)]),
      (''stlite-cache-v1'', [(''https://cdn.jsdelivr.net/npm/pyodide.js'', page)])] \<and>
   (''dynamic-v1'', ''https://app.example/lesson/1'', page) \<in> entries
     (run_fetches
        [(V3, erring, GET ''https://app.example/missing'' ''text/html''),
         (V1, online, GET ''https://app.example/lesson/1'' ''text/html''),
         (V2, online, GET ''https://cdn.jsdelivr.net/npm/pyodide.js'' ''*/*'')] []) \<and>
   ((''dynamic-v1'', ''https://app.example/lesson/1'', page) \<in> entries [] \<or> ok page)"
proof -
  let ?events = "[(V3, erring, GET ''https://app.example/missing'' ''text/html''),
      (V1, online, GET ''https://app.example/lesson/1'' ''text/html''),
      (V2, online, GET ''https://cdn.jsdelivr.net/npm/pyodide.js'' ''*/*'')]"
  have run: "run_fetches ?events []
      = [(''dynamic-v1'', [(''https://app.example/lesson/1'', page)]),
         (''stlite-cache-v1'', [(''https://cdn.jsdelivr.net/npm/pyodide.js'', page)])]"
    by (simp add: platform_defs handler_defs startsWith_Cons sublist_Cons_right
        DYNAMIC_CACHE_def STLITE_CACHE_def)
  have mem: "(''dynamic-v1'', ''https://app.example/lesson/1'', page) \<in> entries (run_fetches ?events [])"
    unfolding run by (simp add: entries_Cons)
  from C8_only_ok_stored [OF mem] run mem show ?thesis
    by simp
qed

end
